theory Spec2Isabelle
  imports Complex_Main
begin

section \<open>AR Deathmatch client: session state and pose-based hit scoring\<close>

text \<open>
  The development embeds the logic of \<^verbatim>\<open>src/app/page.tsx\<close> (the React component
  \<^verbatim>\<open>Game\<close>): the socket handlers that drive the session state, and
  \<^verbatim>\<open>handleShoot\<close> with its keypoint loop.

  Conventions of the embedding.
  \<^item> A JavaScript number holding a score or a coordinate is the \<^typ>\<open>real\<close> it
    denotes; infinities and NaN have no counterpart. The comparisons of the source
    (\<^verbatim>\<open><\<close>, \<^verbatim>\<open>>\<close>, \<^verbatim>\<open>>=\<close>) are exact on such values. Its arithmetic is not: the
    sums and the quotient of a collective score, and the difference, powers, sum and
    square root of a distance, are rounded by the runtime. These operations are
    therefore parameters of the model (a record of type \<open>number_ops\<close>), and every
    general theorem holds for all operations, those of the runtime among them.
    Sample computations use the exact operations, on inputs where rounding does not
    change the outcome of any comparison.
  \<^item> \<^verbatim>\<open>Date.now()\<close> is an \<^typ>\<open>int\<close> (milliseconds).
  \<^item> React state (\<^verbatim>\<open>useState\<close>) and refs (\<^verbatim>\<open>useRef\<close>) are fields of one record;
    a handler takes the record and returns the updated one, with the list of
    external effects it performed (pose estimation calls, relay messages).
  \<^item> The refs to the pose model and to the video element are \<^typ>\<open>bool\<close>: \<open>True\<close>
    when \<^verbatim>\<open>.current\<close> is not null. The ref to the socket holds the socket, which
    carries its id once it has connected.
  \<^item> Console output and audio playback are not part of the model.
\<close>

subsection \<open>Data\<close>

record player =
  id' :: string
  health :: int
  ready :: bool

datatype phase = Waiting | Ready | Over

datatype gun = Sniper | Pistol | Shotgun

text \<open>A PoseNet keypoint \<^verbatim>\<open>{part, position: {x, y}, score}\<close>; the position is the pair
  \<open>(x, y)\<close>.\<close>

record keypoint =
  part :: string
  position :: "real \<times> real"
  score :: real

text \<open>The arithmetic of the runtime on numbers: \<^verbatim>\<open>+\<close>, \<^verbatim>\<open>-\<close>, \<^verbatim>\<open>/\<close>, \<^verbatim>\<open>Math.pow\<close> and
  \<^verbatim>\<open>Math.sqrt\<close>.\<close>

record number_ops =
  jsAdd :: "real \<Rightarrow> real \<Rightarrow> real"
  jsSub :: "real \<Rightarrow> real \<Rightarrow> real"
  jsDiv :: "real \<Rightarrow> real \<Rightarrow> real"
  jsPow :: "real \<Rightarrow> real \<Rightarrow> real"
  jsSqrt :: "real \<Rightarrow> real"

text \<open>The operations without rounding (the power for exponents that are natural
  numbers, as the source's exponent 2 is).\<close>

definition exact :: number_ops where
  "exact = \<lparr> jsAdd = (+), jsSub = (-), jsDiv = (/),
      jsPow = (\<lambda>x y. x ^ nat \<lfloor>y\<rfloor>), jsSqrt = sqrt \<rparr>"

text \<open>A socket of the relay connection, with its \<^verbatim>\<open>id\<close>: undefined until the socket
  has connected.\<close>

datatype socket = Socket "string option"

text \<open>The component's state: the \<^verbatim>\<open>useState\<close> cells and the three refs that
  \<^verbatim>\<open>handleShoot\<close> tests.\<close>

record game =
  players :: "player list"
  gameStatus :: phase
  socketId :: "string option"
  winner :: "string option"
  lastShot :: int
  selectedGun :: gun
  socketRef :: "socket option"
  netRef :: bool
  videoRef :: bool

definition initial :: game where
  "initial = \<lparr> players = [], gameStatus = Waiting, socketId = None, winner = None,
      lastShot = 0, selectedGun = Pistol,
      socketRef = None, netRef = False, videoRef = False \<rparr>"

text \<open>What a handler does to the outside world.\<close>

datatype effect =
    EstimateSinglePose
  | EmitShoot "string option" nat
  | EmitResetGame
  | EmitJoinGame

text \<open>The answer of \<^verbatim>\<open>estimateSinglePose\<close>: it throws (caught by the handler's
  \<^verbatim>\<open>catch\<close>) or delivers the keypoints.\<close>

datatype estimate = PoseNetError | Poses "keypoint list"

subsection \<open>Socket handlers and local actions\<close>

text \<open>The first effect of the component (lines 31 to 77), which runs after the first
  render and again after every render in which \<^verbatim>\<open>gameStatus\<close> has changed: the
  previous socket is disconnected and \<^verbatim>\<open>socketRef.current\<close> becomes a new socket,
  not yet connected.\<close>

definition sessionEffect :: "game \<Rightarrow> game" where
  "sessionEffect s = s\<lparr>socketRef := Some (Socket None)\<rparr>"

text \<open>\<^verbatim>\<open>socket.on("playerUpdate", ...)\<close>, lines 53 to 59.\<close>

definition playerUpdate :: "game \<Rightarrow> player list \<Rightarrow> game" where
  "playerUpdate s updatedPlayers =
     (let s1 = s\<lparr>players := updatedPlayers\<rparr>
      in if length updatedPlayers = 2 \<and> gameStatus s = Waiting
         then s1\<lparr>gameStatus := Ready\<rparr> else s1)"

text \<open>\<^verbatim>\<open>socket.on("gameOver", ...)\<close>, lines 61 to 68. The payload's \<^verbatim>\<open>winner\<close> is taken
  to be a player id, as the relay's interface has it; the handler stores it
  unchecked.\<close>

definition gameOver :: "game \<Rightarrow> string \<Rightarrow> game" where
  "gameOver s w = s\<lparr>gameStatus := Over, winner := Some w\<rparr>"

text \<open>\<^verbatim>\<open>socket.on("connect", ...)\<close>, lines 47 to 51: the current socket has connected
  and has the id \<open>sid\<close>, which the handler copies into the state.\<close>

definition connect :: "game \<Rightarrow> string \<Rightarrow> game \<times> effect list" where
  "connect s sid =
     (case socketRef s of
        None \<Rightarrow> (s, [])
      | Some sock \<Rightarrow>
          (s\<lparr>socketRef := Some (Socket (Some sid)), socketId := Some sid\<rparr>, [EmitJoinGame]))"

text \<open>\<^verbatim>\<open>handleReset\<close>, lines 340 to 345; the message is sent through
  \<^verbatim>\<open>socketRef.current?.emit\<close>.\<close>

definition handleReset :: "game \<Rightarrow> game \<times> effect list" where
  "handleReset s =
     (s\<lparr>gameStatus := Waiting, winner := None\<rparr>,
      if socketRef s \<noteq> None then [EmitResetGame] else [])"

text \<open>\<^verbatim>\<open>handleGunChange\<close>, lines 347 to 350.\<close>

definition handleGunChange :: "game \<Rightarrow> gun \<Rightarrow> game" where
  "handleGunChange s g = s\<lparr>selectedGun := g\<rparr>"

subsection \<open>Hit detection constants (lines 220 to 228 and 266 to 268)\<close>

text \<open>The literals 0.3 and 0.5 and the products \<^verbatim>\<open>480 * 0.5\<close> and \<^verbatim>\<open>480 * 0.85\<close>
  compare with a number as 3/10, 1/2, 240 and 408 do.\<close>

definition headParts :: "string list" where
  "headParts = [''nose'', ''leftEye'', ''rightEye'', ''leftEar'', ''rightEar'']"

definition torsoParts :: "string list" where
  "torsoParts = [''leftShoulder'', ''rightShoulder'', ''leftHip'', ''rightHip'']"

definition lowerBodyParts :: "string list" where
  "lowerBodyParts = [''leftHip'', ''rightHip'']"

definition centerX :: real where "centerX = 320"
definition centerY :: real where "centerY = 240"

definition radius :: "gun \<Rightarrow> real" where
  "radius g = (if g = Sniper then 100 else if g = Pistol then 200 else 400)"

definition scaleX :: real where "scaleX = 1"
definition scaleY :: real where "scaleY = 1"
definition threshold :: real where "threshold = 0.5"

definition headZoneMax :: real where "headZoneMax = 480 * 0.5"
definition torsoZoneMin :: real where "torsoZoneMin = headZoneMax"
definition torsoZoneMax :: real where "torsoZoneMax = 480 * 0.85"

subsection \<open>Collective scores (lines 241 to 262)\<close>

text \<open>\<^verbatim>\<open>parts.map((part) => keypoints.find((k) => k.part === part)).filter((k) => k && k.score > 0.3)\<close>:
  the first keypoint of each listed part, when there is one, kept when its score
  exceeds 0.3.\<close>

definition selectKeypoints :: "string list \<Rightarrow> keypoint list \<Rightarrow> keypoint list" where
  "selectKeypoints parts keypoints =
     filter (\<lambda>k. score k > 0.3)
       (List.map_filter (\<lambda>p. find (\<lambda>k. part k = p) keypoints) parts)"

text \<open>\<^verbatim>\<open>ks.length ? ks.reduce((sum, k) => sum + k.score, 0) / ks.length : 0\<close>: the scores
  are added from the left, starting from 0, and the sum is divided by the length, with
  the runtime's addition and division.\<close>

definition collectiveScore :: "number_ops \<Rightarrow> keypoint list \<Rightarrow> real" where
  "collectiveScore N ks =
     (if length ks \<noteq> 0
      then jsDiv N (foldl (\<lambda>sum k. jsAdd N sum (score k)) 0 ks) (real (length ks))
      else 0)"

subsection \<open>The keypoint loop (lines 272 to 322)\<close>

text \<open>The four locals the loop updates.\<close>

record shot =
  hitDetected :: bool
  damage :: nat
  bestScore :: real
  hitType :: string

definition noShot :: shot where
  "noShot = \<lparr> hitDetected = False, damage = 0, bestScore = 0, hitType = [] \<rparr>"

text \<open>Lines 280 to 285. The products with the scales, which are 1, return their first
  factor; the difference, the powers, the sum and the square root are the runtime's.\<close>

definition adjustedX :: "keypoint \<Rightarrow> real" where
  "adjustedX keypoint = fst (position keypoint) * scaleX"

definition adjustedY :: "keypoint \<Rightarrow> real" where
  "adjustedY keypoint = snd (position keypoint) * scaleY"

definition distance :: "number_ops \<Rightarrow> keypoint \<Rightarrow> real" where
  "distance N keypoint =
     jsSqrt N
       (jsAdd N (jsPow N (jsSub N (adjustedX keypoint) centerX) 2)
                (jsPow N (jsSub N (adjustedY keypoint) centerY) 2))"

text \<open>The test \<^verbatim>\<open>distance < radius\<close> of line 288.\<close>

definition withinRadius :: "number_ops \<Rightarrow> real \<Rightarrow> keypoint \<Rightarrow> bool" where
  "withinRadius N rad keypoint = (distance N keypoint < rad)"

text \<open>One iteration of the loop body, for the radius and the three collective
  scores computed before the loop.\<close>

definition checkKeypoint ::
  "number_ops \<Rightarrow> real \<Rightarrow> real \<Rightarrow> real \<Rightarrow> real \<Rightarrow> shot \<Rightarrow> keypoint \<Rightarrow> shot" where
  "checkKeypoint N rad headScore torsoScore lowerBodyScore st keypoint =
     (if withinRadius N rad keypoint then
        (if part keypoint \<in> set headParts \<and> adjustedY keypoint < headZoneMax
              \<and> headScore > threshold then
           (if headScore > bestScore st
            then st\<lparr>bestScore := headScore, damage := 20, hitType := ''Headshot''\<rparr>
            else st)
         else if part keypoint \<in> set torsoParts \<and> adjustedY keypoint \<ge> torsoZoneMin
              \<and> adjustedY keypoint < torsoZoneMax \<and> torsoScore > threshold then
           (if torsoScore > bestScore st
            then st\<lparr>bestScore := torsoScore, damage := 15, hitType := ''Torso shot''\<rparr>
            else st)
         else if part keypoint \<in> set lowerBodyParts \<and> adjustedY keypoint \<ge> torsoZoneMax
              \<and> lowerBodyScore > threshold then
           (if lowerBodyScore > bestScore st
            then st\<lparr>bestScore := lowerBodyScore, damage := 10,
                    hitType := ''Lower body shot''\<rparr>
            else st)
         else st)\<lparr>hitDetected := True\<rparr>
      else st)"

fun scanKeypoints ::
  "number_ops \<Rightarrow> real \<Rightarrow> real \<Rightarrow> real \<Rightarrow> real \<Rightarrow> shot \<Rightarrow> keypoint list \<Rightarrow> shot" where
  "scanKeypoints N rad hs ts ls st [] = st"
| "scanKeypoints N rad hs ts ls st (k # ks) =
     scanKeypoints N rad hs ts ls (checkKeypoint N rad hs ts ls st k) ks"

definition headKeypoints :: "keypoint list \<Rightarrow> keypoint list" where
  "headKeypoints keypoints = selectKeypoints headParts keypoints"

definition torsoKeypoints :: "keypoint list \<Rightarrow> keypoint list" where
  "torsoKeypoints keypoints = selectKeypoints torsoParts keypoints"

definition lowerBodyKeypoints :: "keypoint list \<Rightarrow> keypoint list" where
  "lowerBodyKeypoints keypoints = selectKeypoints lowerBodyParts keypoints"

definition allKeypoints :: "keypoint list \<Rightarrow> keypoint list" where
  "allKeypoints keypoints =
     headKeypoints keypoints @ torsoKeypoints keypoints @ lowerBodyKeypoints keypoints"

text \<open>The loop run on a pose with the radius \<open>rad\<close>, from the initial locals.\<close>

definition scanPose :: "number_ops \<Rightarrow> real \<Rightarrow> keypoint list \<Rightarrow> keypoint list \<Rightarrow> shot" where
  "scanPose N rad keypoints ks =
     scanKeypoints N rad
       (collectiveScore N (headKeypoints keypoints))
       (collectiveScore N (torsoKeypoints keypoints))
       (collectiveScore N (lowerBodyKeypoints keypoints))
       noShot ks"

text \<open>Lines 220 to 322: from the estimated keypoints and the selected gun to the
  final values of the locals.\<close>

definition detectHit :: "number_ops \<Rightarrow> gun \<Rightarrow> keypoint list \<Rightarrow> shot" where
  "detectHit N g keypoints = scanPose N (radius g) keypoints (allKeypoints keypoints)"

subsection \<open>The shot handler (lines 188 to 338)\<close>

text \<open>The handler tests the three handles, then the cooldown, records the time, asks
  for one pose estimate and, when the loop has set \<^verbatim>\<open>hitDetected\<close>, sends the shoot
  message with the \<^verbatim>\<open>socketId\<close> and the gun of the state it was called in. Whatever
  is thrown after the cooldown test is caught by the handler's \<^verbatim>\<open>catch\<close>, so the
  handler always returns. The wait of one second for a video that is not fully loaded
  (line 212) only delays the estimate and is left out.\<close>

definition missingRefs :: "game \<Rightarrow> bool" where
  "missingRefs s = (socketRef s = None \<or> \<not> netRef s \<or> \<not> videoRef s)"

definition handleShoot :: "number_ops \<Rightarrow> game \<Rightarrow> int \<Rightarrow> estimate \<Rightarrow> game \<times> effect list" where
  "handleShoot N s now est =
     (if missingRefs s then (s, [])
      else if now - lastShot s < 500 then (s, [])
      else
        (s\<lparr>lastShot := now\<rparr>,
         EstimateSinglePose #
           (case est of
              PoseNetError \<Rightarrow> []
            | Poses keypoints \<Rightarrow>
                (let r = detectHit N (selectedGun s) keypoints
                 in if hitDetected r then [EmitShoot (socketId s) (damage r)] else []))))"

subsection \<open>Rendering and the session's transitions\<close>

text \<open>The component returns one of three screens (lines 354, 382 and 447). The
  \<^verbatim>\<open>video\<close> element that carries \<^verbatim>\<open>ref={videoRef}\<close>, and the Shoot button, belong to
  the second one only; React sets the ref when the element is mounted and back to
  null when it is unmounted.\<close>

datatype screen = Lobby | Arena | GameOverScreen

definition render :: "game \<Rightarrow> screen" where
  "render s = (if gameStatus s = Waiting then Lobby
               else if gameStatus s = Ready then Arena else GameOverScreen)"

definition commit :: "game \<Rightarrow> game" where
  "commit s = s\<lparr>videoRef := (render s = Arena)\<rparr>"

text \<open>The events of a session: the first effect has run for the first time, the
  socket events, the pose model has been loaded (line 171), and the three local
  actions.\<close>

datatype event =
    Mounted
  | Connect string
  | PlayerUpdate "player list"
  | GameOver string
  | PoseNetLoaded
  | Shoot int estimate
  | Reset
  | GunChange gun

fun handle :: "number_ops \<Rightarrow> game \<Rightarrow> event \<Rightarrow> game" where
  "handle N s Mounted = sessionEffect s"
| "handle N s (Connect sid) = fst (connect s sid)"
| "handle N s (PlayerUpdate ps) = playerUpdate s ps"
| "handle N s (GameOver w) = gameOver s w"
| "handle N s PoseNetLoaded = s\<lparr>netRef := True\<rparr>"
| "handle N s (Shoot now est) = fst (handleShoot N s now est)"
| "handle N s Reset = fst (handleReset s)"
| "handle N s (GunChange g) = handleGunChange s g"

text \<open>A transition: the handler runs, then React renders and commits, and the first
  effect runs again when \<^verbatim>\<open>gameStatus\<close> has changed (its dependency, line 77). The
  three are taken as one step: no event is handled in between.\<close>

definition step :: "number_ops \<Rightarrow> game \<Rightarrow> event \<Rightarrow> game" where
  "step N s e =
     (let s1 = handle N s e
      in commit (if gameStatus s1 = gameStatus s then s1 else sessionEffect s1))"

fun run :: "number_ops \<Rightarrow> game \<Rightarrow> event list \<Rightarrow> game" where
  "run N s [] = s"
| "run N s (e # es) = run N (step N s e) es"

inductive reachable :: "number_ops \<Rightarrow> game \<Rightarrow> bool" for N where
  reachable_initial: "reachable N initial"
| reachable_step: "reachable N s \<Longrightarrow> reachable N (step N s e)"

subsection \<open>Zones, as the specification speaks of them\<close>

text \<open>The loop has no zone type: it writes \<^verbatim>\<open>hitType\<close> and \<^verbatim>\<open>damage\<close>. The
  definitions of this subsection follow the specification's vocabulary (zone, group,
  collective score, y-band, qualifying zone), so that the loop can be compared with
  it. The collective score of a zone is the one the handler computes.\<close>

datatype zone = Head | Torso | LowerBody

definition zoneParts :: "zone \<Rightarrow> string list" where
  "zoneParts z = (case z of Head \<Rightarrow> headParts | Torso \<Rightarrow> torsoParts
                   | LowerBody \<Rightarrow> lowerBodyParts)"

definition zoneKeypoints :: "zone \<Rightarrow> keypoint list \<Rightarrow> keypoint list" where
  "zoneKeypoints z keypoints = selectKeypoints (zoneParts z) keypoints"

definition zoneScore :: "number_ops \<Rightarrow> zone \<Rightarrow> keypoint list \<Rightarrow> real" where
  "zoneScore N z keypoints = collectiveScore N (zoneKeypoints z keypoints)"

text \<open>Head zone \<open>y < 0.5 H\<close>, torso zone \<open>0.5 H \<le> y < 0.85 H\<close>, lower-body zone
  \<open>y \<ge> 0.85 H\<close>, with \<open>H = 480\<close>.\<close>

definition inBand :: "zone \<Rightarrow> real \<Rightarrow> bool" where
  "inBand z y = (case z of Head \<Rightarrow> y < 240
                 | Torso \<Rightarrow> 240 \<le> y \<and> y < 408
                 | LowerBody \<Rightarrow> 408 \<le> y)"

text \<open>A keypoint passes the test of zone \<open>z\<close>: it bears one of the zone's part
  names, is in range, lies in the zone's y-band, and the zone's collective score
  exceeds 0.5.\<close>

definition passes :: "number_ops \<Rightarrow> real \<Rightarrow> keypoint list \<Rightarrow> zone \<Rightarrow> keypoint \<Rightarrow> bool" where
  "passes N rad keypoints z k =
     (part k \<in> set (zoneParts z) \<and> withinRadius N rad k \<and> inBand z (adjustedY k)
      \<and> zoneScore N z keypoints > 0.5)"

text \<open>A zone qualifies when one of its group's keypoints passes its test.\<close>

definition qualifies :: "number_ops \<Rightarrow> real \<Rightarrow> keypoint list \<Rightarrow> zone \<Rightarrow> bool" where
  "qualifies N rad keypoints z =
     list_ex (passes N rad keypoints z) (zoneKeypoints z keypoints)"

definition zoneDamage :: "zone \<Rightarrow> nat" where
  "zoneDamage z = (case z of Head \<Rightarrow> 20 | Torso \<Rightarrow> 15 | LowerBody \<Rightarrow> 10)"

definition zoneName :: "zone \<Rightarrow> string" where
  "zoneName z = (case z of Head \<Rightarrow> ''Headshot'' | Torso \<Rightarrow> ''Torso shot''
                  | LowerBody \<Rightarrow> ''Lower body shot'')"

text \<open>The zone a final \<^verbatim>\<open>hitType\<close> stands for; the initial empty string stands for
  none.\<close>

definition reportedZone :: "shot \<Rightarrow> zone option" where
  "reportedZone r =
     (if hitType r = ''Headshot'' then Some Head
      else if hitType r = ''Torso shot'' then Some Torso
      else if hitType r = ''Lower body shot'' then Some LowerBody
      else None)"

text \<open>The loop's order: the index in \<^verbatim>\<open>allKeypoints\<close> of the first keypoint that passes
  the test of zone \<open>z\<close> (the length of the list when there is none).\<close>

definition firstPass :: "number_ops \<Rightarrow> real \<Rightarrow> keypoint list \<Rightarrow> zone \<Rightarrow> nat" where
  "firstPass N rad keypoints z =
     length (takeWhile (\<lambda>k. \<not> passes N rad keypoints z k) (allKeypoints keypoints))"

text \<open>Zone \<open>z\<close> wins: it qualifies, no qualifying zone has a greater collective
  score, and every other qualifying zone of equal score is first passed later in the
  loop's order.\<close>

definition wins :: "number_ops \<Rightarrow> real \<Rightarrow> keypoint list \<Rightarrow> zone \<Rightarrow> bool" where
  "wins N rad keypoints z \<longleftrightarrow>
     qualifies N rad keypoints z
     \<and> (\<forall>z'. qualifies N rad keypoints z' \<longrightarrow>
            zoneScore N z' keypoints \<le> zoneScore N z keypoints
          \<and> (zoneScore N z' keypoints = zoneScore N z keypoints \<and> z' \<noteq> z \<longrightarrow>
                firstPass N rad keypoints z < firstPass N rad keypoints z'))"

subsection \<open>Notions used in the proofs about the loop\<close>

text \<open>The update that each of the three branches of the loop body performs, for the
  zone of the branch.\<close>

definition offer :: "number_ops \<Rightarrow> keypoint list \<Rightarrow> zone \<Rightarrow> shot \<Rightarrow> shot" where
  "offer N kps z st =
     (if zoneScore N z kps > bestScore st
      then st\<lparr>bestScore := zoneScore N z kps, damage := zoneDamage z, hitType := zoneName z\<rparr>
      else st)"

abbreviation poseStep :: "number_ops \<Rightarrow> real \<Rightarrow> keypoint list \<Rightarrow> shot \<Rightarrow> keypoint \<Rightarrow> shot" where
  "poseStep N rad kps \<equiv> checkKeypoint N rad (collectiveScore N (headKeypoints kps))
      (collectiveScore N (torsoKeypoints kps)) (collectiveScore N (lowerBodyKeypoints kps))"

text \<open>Zone \<open>z\<close> leads after the keypoints \<open>ks\<close>: some keypoint of \<open>ks\<close> passes its
  test, every zone passed before that keypoint has a smaller score, and every zone
  passed after it has no greater score.\<close>

definition leader :: "number_ops \<Rightarrow> real \<Rightarrow> keypoint list \<Rightarrow> keypoint list \<Rightarrow> zone \<Rightarrow> bool" where
  "leader N rad kps ks z \<longleftrightarrow>
     (\<exists>pre k post. ks = pre @ k # post \<and> passes N rad kps z k
        \<and> (\<forall>k'\<in>set pre. \<forall>z'. passes N rad kps z' k' \<longrightarrow> zoneScore N z' kps < zoneScore N z kps)
        \<and> (\<forall>k'\<in>set post. \<forall>z'. passes N rad kps z' k' \<longrightarrow> zoneScore N z' kps \<le> zoneScore N z kps))"

text \<open>The locals hold the score, damage and name of zone \<open>z\<close>.\<close>

definition holds :: "number_ops \<Rightarrow> keypoint list \<Rightarrow> shot \<Rightarrow> zone \<Rightarrow> bool" where
  "holds N kps st z \<longleftrightarrow>
     bestScore st = zoneScore N z kps \<and> damage st = zoneDamage z \<and> hitType st = zoneName z"

subsection \<open>Sample data\<close>

definition alice :: player where
  "alice = \<lparr> id' = ''alice'', health = 100, ready = True \<rparr>"

definition bob :: player where
  "bob = \<lparr> id' = ''bob'', health = 100, ready = True \<rparr>"

text \<open>A session in which both players have joined, the socket created on entering
  Ready has connected, and the pose model is loaded.\<close>

definition arena :: game where
  "arena = run exact initial
     [Mounted, Connect ''lobby'', PlayerUpdate [alice, bob], Connect ''alice'', PoseNetLoaded]"


definition noseHigh :: keypoint where
  "noseHigh = \<lparr> part = ''nose'', position = (320, 100), score = 0.9 \<rparr>"

definition noseLow :: keypoint where
  "noseLow = \<lparr> part = ''nose'', position = (320, 300), score = 0.9 \<rparr>"

definition leftWrist :: keypoint where
  "leftWrist = \<lparr> part = ''leftWrist'', position = (320, 240), score = 0.9 \<rparr>"

definition leftHipLow :: keypoint where
  "leftHipLow = \<lparr> part = ''leftHip'', position = (300, 420), score = 0.8 \<rparr>"

definition rightHipMid :: keypoint where
  "rightHipMid = \<lparr> part = ''rightHip'', position = (340, 300), score = 0.8 \<rparr>"

text \<open>A nose in the head band and a shoulder in the torso band, of the same score
  0.75, both within 60 of the centre.\<close>

definition noseTie :: keypoint where
  "noseTie = \<lparr> part = ''nose'', position = (320, 200), score = 0.75 \<rparr>"

definition shoulderTie :: keypoint where
  "shoulderTie = \<lparr> part = ''leftShoulder'', position = (320, 300), score = 0.75 \<rparr>"

text \<open>A nose close to the centre and an ear 150 to its right, on the centre line.\<close>

definition noseNear :: keypoint where
  "noseNear = \<lparr> part = ''nose'', position = (320, 200), score = 0.9 \<rparr>"

definition leftEarWide :: keypoint where
  "leftEarWide = \<lparr> part = ''leftEar'', position = (470, 240), score = 0.9 \<rparr>"

section \<open>Evaluating with the exact operations\<close>

text \<open>With the exact operations and a positive radius the test on the square root is
  a test on the squared distance; a radius that is not positive admits no keypoint.\<close>

lemma distance_exact:
  "distance exact k = sqrt ((fst (position k) - 320)\<^sup>2 + (snd (position k) - 240)\<^sup>2)"
  by (simp add: distance_def exact_def adjustedX_def adjustedY_def scaleX_def scaleY_def
      centerX_def centerY_def)

lemma withinRadius_exact:
  "withinRadius exact rad k =
     (0 < rad \<and> (fst (position k) - 320)\<^sup>2 + (snd (position k) - 240)\<^sup>2 < rad\<^sup>2)"
proof (cases "0 < rad")
  case True
  have "sqrt a < rad \<longleftrightarrow> a < rad\<^sup>2" for a
  proof -
    have "sqrt a < rad \<longleftrightarrow> sqrt a < sqrt (rad\<^sup>2)" using True by simp
    also have "\<dots> \<longleftrightarrow> a < rad\<^sup>2" by (rule real_sqrt_less_iff)
    finally show ?thesis .
  qed
  with True show ?thesis by (simp add: withinRadius_def distance_exact)
next
  case False
  have "0 \<le> distance exact k" by (simp add: distance_exact)
  with False show ?thesis by (simp add: withinRadius_def)
qed

lemma collectiveScore_exact:
  "collectiveScore exact ks =
     (if ks = [] then 0 else foldl (\<lambda>sum k. sum + score k) 0 ks / real (length ks))"
  by (simp add: collectiveScore_def exact_def)

lemmas pose_eval = detectHit_def scanPose_def allKeypoints_def headKeypoints_def torsoKeypoints_def
  lowerBodyKeypoints_def selectKeypoints_def collectiveScore_exact checkKeypoint_def
  headParts_def torsoParts_def lowerBodyParts_def radius_def threshold_def headZoneMax_def
  torsoZoneMin_def torsoZoneMax_def adjustedY_def scaleY_def noShot_def withinRadius_exact
  List.map_filter_simps qualifies_def passes_def zoneKeypoints_def zoneParts_def zoneScore_def
  inBand_def reportedZone_def
  noseHigh_def noseLow_def leftWrist_def leftHipLow_def rightHipMid_def
  noseNear_def leftEarWide_def noseTie_def shoulderTie_def

text \<open>The same unfolding for arbitrary operations: it leaves the range tests and the
  collective scores of non-empty groups as they are.\<close>

lemmas part_eval = detectHit_def scanPose_def allKeypoints_def headKeypoints_def torsoKeypoints_def
  lowerBodyKeypoints_def selectKeypoints_def checkKeypoint_def
  headParts_def torsoParts_def lowerBodyParts_def radius_def threshold_def headZoneMax_def
  torsoZoneMin_def torsoZoneMax_def adjustedY_def scaleY_def noShot_def
  List.map_filter_simps qualifies_def passes_def zoneKeypoints_def zoneParts_def zoneScore_def
  inBand_def
  noseHigh_def noseLow_def leftWrist_def leftHipLow_def rightHipMid_def

lemma collectiveScore_Nil: "collectiveScore N [] = 0"
  by (simp add: collectiveScore_def)

section \<open>The selected keypoints\<close>

lemma find_part: "find (\<lambda>k. part k = p) kps = Some k \<Longrightarrow> part k = p"
  by (auto simp: find_Some_iff)

lemma set_map_filter_find:
  "k \<in> set (List.map_filter (\<lambda>p. find (\<lambda>k. part k = p) kps) ps) \<longleftrightarrow>
     part k \<in> set ps \<and> find (\<lambda>k'. part k' = part k) kps = Some k"
  by (induction ps) (auto simp: List.map_filter_simps dest: find_part split: option.splits)

lemma mem_selectKeypoints:
  "k \<in> set (selectKeypoints ps kps) \<longleftrightarrow>
     part k \<in> set ps \<and> score k > 0.3 \<and> find (\<lambda>k'. part k' = part k) kps = Some k"
  by (auto simp: selectKeypoints_def set_map_filter_find)

lemma selectKeypoints_append:
  "selectKeypoints (ps @ qs) kps = selectKeypoints ps kps @ selectKeypoints qs kps"
  by (simp add: selectKeypoints_def List.map_filter_def)

lemma map_part_found:
  "map part (List.map_filter (\<lambda>p. find (\<lambda>k. part k = p) kps) ps)
     = filter (\<lambda>p. find (\<lambda>k. part k = p) kps \<noteq> None) ps"
  by (induction ps) (auto simp: List.map_filter_simps dest: find_part split: option.splits)

lemma distinct_selectKeypoints:
  assumes "distinct ps" shows "distinct (selectKeypoints ps kps)"
proof -
  have "distinct (map part (List.map_filter (\<lambda>p. find (\<lambda>k. part k = p) kps) ps))"
    using assms by (simp add: map_part_found)
  then have "distinct (List.map_filter (\<lambda>p. find (\<lambda>k. part k = p) kps) ps)"
    by (rule distinct_map [THEN iffD1, THEN conjunct1])
  then show ?thesis by (simp add: selectKeypoints_def)
qed

lemma set_allKeypoints:
  "set (allKeypoints kps) = set (headKeypoints kps @ torsoKeypoints kps)"
  by (auto simp: allKeypoints_def headKeypoints_def torsoKeypoints_def lowerBodyKeypoints_def
      mem_selectKeypoints torsoParts_def lowerBodyParts_def)

lemma lower_subset_torso: "set (lowerBodyKeypoints kps) \<subseteq> set (torsoKeypoints kps)"
  by (auto simp: lowerBodyKeypoints_def torsoKeypoints_def mem_selectKeypoints
      lowerBodyParts_def torsoParts_def)

lemma mem_allKeypoints_zone:
  "k \<in> set (allKeypoints kps) \<and> part k \<in> set (zoneParts z) \<longleftrightarrow> k \<in> set (zoneKeypoints z kps)"
  by (cases z) (auto simp: allKeypoints_def headKeypoints_def torsoKeypoints_def lowerBodyKeypoints_def
      zoneKeypoints_def zoneParts_def mem_selectKeypoints)

lemma qualifies_iff:
  "qualifies N rad kps z \<longleftrightarrow> (\<exists>k\<in>set (allKeypoints kps). passes N rad kps z k)"
  unfolding qualifies_def list_ex_iff
  using mem_allKeypoints_zone [of _ kps z] by (auto simp: passes_def)

section \<open>One iteration of the loop\<close>

lemma zoneScore_simps:
  "collectiveScore N (headKeypoints kps) = zoneScore N Head kps"
  "collectiveScore N (torsoKeypoints kps) = zoneScore N Torso kps"
  "collectiveScore N (lowerBodyKeypoints kps) = zoneScore N LowerBody kps"
  by (simp_all add: zoneScore_def zoneKeypoints_def zoneParts_def headKeypoints_def
      torsoKeypoints_def lowerBodyKeypoints_def)

text \<open>The part lists of Head and Torso are disjoint, and the y-bands of Torso and
  LowerBody are: a keypoint passes the test of at most one zone, so the order of the
  branches decides nothing.\<close>

lemma passes_unique: "passes N rad kps z k \<Longrightarrow> passes N rad kps z' k \<Longrightarrow> z = z'"
  by (cases z; cases z')
     (auto simp: passes_def zoneParts_def inBand_def headParts_def torsoParts_def lowerBodyParts_def)

lemma passes_withinRadius: "passes N rad kps z k \<Longrightarrow> withinRadius N rad k"
  by (simp add: passes_def)

lemma passes_score: "passes N rad kps z k \<Longrightarrow> zoneScore N z kps > 0.5"
  by (simp add: passes_def)

lemma step_out: "\<not> withinRadius N rad k \<Longrightarrow> poseStep N rad kps st k = st"
  by (simp add: checkKeypoint_def)

lemma step_pass:
  "passes N rad kps z k \<Longrightarrow> poseStep N rad kps st k = (offer N kps z st)\<lparr>hitDetected := True\<rparr>"
  by (cases z)
     (auto simp: passes_def checkKeypoint_def offer_def zoneScore_simps zoneParts_def inBand_def
        zoneDamage_def zoneName_def threshold_def headZoneMax_def torsoZoneMin_def torsoZoneMax_def
        headParts_def torsoParts_def lowerBodyParts_def)

lemma step_miss:
  assumes w: "withinRadius N rad k" and n: "\<forall>z. \<not> passes N rad kps z k"
  shows "poseStep N rad kps st k = st\<lparr>hitDetected := True\<rparr>"
proof -
  have h: "\<not> (part k \<in> set headParts \<and> adjustedY k < headZoneMax
             \<and> zoneScore N Head kps > threshold)"
    using n [rule_format, of Head] w
    by (simp add: passes_def zoneParts_def inBand_def threshold_def headZoneMax_def)
  have t: "\<not> (part k \<in> set torsoParts \<and> adjustedY k \<ge> torsoZoneMin
             \<and> adjustedY k < torsoZoneMax \<and> zoneScore N Torso kps > threshold)"
    using n [rule_format, of Torso] w
    by (simp add: passes_def zoneParts_def inBand_def threshold_def headZoneMax_def
        torsoZoneMin_def torsoZoneMax_def)
  have l: "\<not> (part k \<in> set lowerBodyParts \<and> adjustedY k \<ge> torsoZoneMax
             \<and> zoneScore N LowerBody kps > threshold)"
    using n [rule_format, of LowerBody] w
    by (simp add: passes_def zoneParts_def inBand_def threshold_def torsoZoneMax_def)
  show ?thesis
    unfolding checkKeypoint_def zoneScore_simps by (simp only: w h t l if_True if_False)
qed

lemma step_cases:
  obtains (out) "\<not> withinRadius N rad k" "poseStep N rad kps st k = st"
  | (miss) "withinRadius N rad k" "\<forall>z. \<not> passes N rad kps z k"
      "poseStep N rad kps st k = st\<lparr>hitDetected := True\<rparr>"
  | (pass) z where "withinRadius N rad k" "passes N rad kps z k"
      "poseStep N rad kps st k = (offer N kps z st)\<lparr>hitDetected := True\<rparr>"
  using step_out step_miss step_pass passes_withinRadius by metis

lemma offer_hitDetected: "hitDetected (offer N kps z st) = hitDetected st"
  by (simp add: offer_def)

section \<open>The loop\<close>

lemma scanKeypoints_append:
  "scanKeypoints N rad hs ts ls st (xs @ ys)
     = scanKeypoints N rad hs ts ls (scanKeypoints N rad hs ts ls st xs) ys"
  by (induction xs arbitrary: st) auto

lemma scanPose_Nil: "scanPose N rad kps [] = noShot"
  by (simp add: scanPose_def)

lemma scanPose_snoc: "scanPose N rad kps (ks @ [k]) = poseStep N rad kps (scanPose N rad kps ks) k"
  by (simp add: scanPose_def scanKeypoints_append)

text \<open>\<^verbatim>\<open>hitDetected\<close> records that some keypoint of the list was in range, whatever
  the zone tests said.\<close>

lemma scan_hitDetected:
  "hitDetected (scanPose N rad kps ks) = (\<exists>k\<in>set ks. withinRadius N rad k)"
proof (induction ks rule: rev_induct)
  case Nil
  show ?case by (simp add: scanPose_Nil noShot_def)
next
  case (snoc k ks)
  show ?case
    by (cases rule: step_cases [of N rad k kps "scanPose N rad kps ks"])
       (auto simp: scanPose_snoc snoc offer_hitDetected)
qed

lemma scan_none:
  "\<forall>k\<in>set ks. \<forall>z. \<not> passes N rad kps z k \<Longrightarrow>
     bestScore (scanPose N rad kps ks) = 0 \<and> damage (scanPose N rad kps ks) = 0
     \<and> hitType (scanPose N rad kps ks) = []"
proof (induction ks rule: rev_induct)
  case Nil
  show ?case by (simp add: scanPose_Nil noShot_def)
next
  case (snoc k ks)
  then show ?case
    by (cases rule: step_cases [of N rad k kps "scanPose N rad kps ks"])
       (auto simp: scanPose_snoc)
qed

lemma leader_bound:
  "leader N rad kps ks z \<Longrightarrow> k \<in> set ks \<Longrightarrow> passes N rad kps z' k \<Longrightarrow>
     zoneScore N z' kps \<le> zoneScore N z kps"
  unfolding leader_def using passes_unique by fastforce

lemma leader_snoc_keep:
  assumes "leader N rad kps ks z" "\<forall>z'. passes N rad kps z' k \<longrightarrow> zoneScore N z' kps \<le> zoneScore N z kps"
  shows "leader N rad kps (ks @ [k]) z"
proof -
  from assms(1) obtain pre k0 post where
    *: "ks = pre @ k0 # post" "passes N rad kps z k0"
       "\<forall>k'\<in>set pre. \<forall>z'. passes N rad kps z' k' \<longrightarrow> zoneScore N z' kps < zoneScore N z kps"
       "\<forall>k'\<in>set post. \<forall>z'. passes N rad kps z' k' \<longrightarrow> zoneScore N z' kps \<le> zoneScore N z kps"
    unfolding leader_def by blast
  have "ks @ [k] = pre @ k0 # (post @ [k])" using *(1) by simp
  moreover have "\<forall>k'\<in>set (post @ [k]). \<forall>z'. passes N rad kps z' k' \<longrightarrow> zoneScore N z' kps \<le> zoneScore N z kps"
    using *(4) assms(2) by auto
  ultimately show ?thesis unfolding leader_def using *(2,3) by blast
qed

lemma leader_snoc_new:
  assumes "passes N rad kps z k"
    "\<forall>k'\<in>set ks. \<forall>z'. passes N rad kps z' k' \<longrightarrow> zoneScore N z' kps < zoneScore N z kps"
  shows "leader N rad kps (ks @ [k]) z"
  unfolding leader_def
  by (rule exI [of _ ks], rule exI [of _ k], rule exI [of _ "[]"]) (use assms in simp)

text \<open>The invariant of the loop: once a keypoint has passed a zone test, the locals
  are those of the leading zone.\<close>

lemma scan_some:
  "\<exists>k\<in>set ks. \<exists>z. passes N rad kps z k \<Longrightarrow>
     \<exists>z. leader N rad kps ks z \<and> holds N kps (scanPose N rad kps ks) z"
proof (induction ks rule: rev_induct)
  case Nil
  then show ?case by simp
next
  case (snoc k ks)
  let ?st = "scanPose N rad kps ks"
  show ?case
  proof (cases "\<exists>k\<in>set ks. \<exists>z. passes N rad kps z k")
    case True
    with snoc.IH obtain z where z: "leader N rad kps ks z" "holds N kps ?st z" by blast
    show ?thesis
    proof (cases rule: step_cases [of N rad k kps ?st])
      case out
      then have "\<forall>z'. \<not> passes N rad kps z' k" using passes_withinRadius by blast
      with z out show ?thesis
        by (auto simp: scanPose_snoc intro!: exI [of _ z] leader_snoc_keep)
    next
      case miss
      with z show ?thesis
        by (auto simp: scanPose_snoc holds_def intro!: exI [of _ z] leader_snoc_keep)
    next
      case (pass z1)
      show ?thesis
      proof (cases "zoneScore N z1 kps > zoneScore N z kps")
        case True
        have "\<forall>k'\<in>set ks. \<forall>z'. passes N rad kps z' k' \<longrightarrow> zoneScore N z' kps < zoneScore N z1 kps"
          using leader_bound [OF z(1)] True by fastforce
        with pass(2) have "leader N rad kps (ks @ [k]) z1" by (rule leader_snoc_new)
        moreover have "holds N kps (poseStep N rad kps ?st k) z1"
          using pass(3) True z(2) by (simp add: holds_def offer_def)
        ultimately show ?thesis by (auto simp: scanPose_snoc)
      next
        case False
        have "\<forall>z'. passes N rad kps z' k \<longrightarrow> zoneScore N z' kps \<le> zoneScore N z kps"
          using passes_unique [OF pass(2)] False by fastforce
        with z(1) have "leader N rad kps (ks @ [k]) z" by (rule leader_snoc_keep)
        moreover have "holds N kps (poseStep N rad kps ?st k) z"
          using pass(3) False z(2) by (simp add: holds_def offer_def)
        ultimately show ?thesis by (auto simp: scanPose_snoc)
      qed
    qed
  next
    case False
    with snoc.prems obtain z1 where p: "passes N rad kps z1 k" by auto
    from False have none: "\<forall>k\<in>set ks. \<forall>z. \<not> passes N rad kps z k" by blast
    then have "leader N rad kps (ks @ [k]) z1"
      using p by (intro leader_snoc_new) auto
    moreover have "holds N kps (poseStep N rad kps ?st k) z1"
      using step_pass [OF p, of ?st] scan_none [OF none] passes_score [OF p]
      by (simp add: holds_def offer_def)
    ultimately show ?thesis by (auto simp: scanPose_snoc)
  qed
qed

text \<open>A keypoint met a second time changes nothing: \<^verbatim>\<open>hitDetected\<close> is already set,
  and the score its zone offers is not greater than the best one.\<close>

lemma scan_revisit:
  assumes "k \<in> set ks"
  shows "poseStep N rad kps (scanPose N rad kps ks) k = scanPose N rad kps ks"
proof (cases rule: step_cases [of N rad k kps "scanPose N rad kps ks"])
  case out
  then show ?thesis by simp
next
  case miss
  have "hitDetected (scanPose N rad kps ks)"
    using assms miss(1) by (auto simp: scan_hitDetected)
  with miss(3) show ?thesis by simp
next
  case (pass z)
  have h: "hitDetected (scanPose N rad kps ks)"
    using assms pass(1) by (auto simp: scan_hitDetected)
  from assms pass(2) obtain z0 where
    z0: "leader N rad kps ks z0" "holds N kps (scanPose N rad kps ks) z0"
    using scan_some [of ks N rad kps] by blast
  have "zoneScore N z kps \<le> bestScore (scanPose N rad kps ks)"
    using leader_bound [OF z0(1) assms pass(2)] z0(2) by (simp add: holds_def)
  then have "offer N kps z (scanPose N rad kps ks) = scanPose N rad kps ks"
    by (simp add: offer_def)
  with pass(3) h show ?thesis by simp
qed

lemma scan_seen:
  "set ys \<subseteq> set xs \<Longrightarrow> scanPose N rad kps (xs @ ys) = scanPose N rad kps xs"
proof (induction ys rule: rev_induct)
  case Nil
  show ?case by simp
next
  case (snoc y ys)
  have "scanPose N rad kps (xs @ ys @ [y]) = poseStep N rad kps (scanPose N rad kps (xs @ ys)) y"
    using scanPose_snoc [of N rad kps "xs @ ys" y] by simp
  also have "\<dots> = poseStep N rad kps (scanPose N rad kps xs) y" using snoc by simp
  also have "\<dots> = scanPose N rad kps xs" using snoc.prems by (intro scan_revisit) simp
  finally show ?case .
qed

lemma scan_same_range:
  "\<forall>k\<in>set ks. withinRadius N r1 k = withinRadius N r2 k \<Longrightarrow>
     scanKeypoints N r1 hs ts ls st ks = scanKeypoints N r2 hs ts ls st ks"
proof (induction ks arbitrary: st)
  case Nil
  show ?case by simp
next
  case (Cons k ks)
  then have "checkKeypoint N r1 hs ts ls st k = checkKeypoint N r2 hs ts ls st k"
    by (simp add: checkKeypoint_def)
  with Cons show ?case by simp
qed

section \<open>The result of hit detection\<close>

lemma zoneName_inject: "zoneName z = zoneName z' \<longleftrightarrow> z = z'"
  by (cases z; cases z') (simp_all add: zoneName_def)

lemma reportedZone_holds: "holds N kps st z \<Longrightarrow> reportedZone st = Some z"
  by (cases z) (simp_all add: holds_def reportedZone_def zoneName_def)


lemma detect_none:
  "\<forall>z. \<not> qualifies N (radius g) kps z \<Longrightarrow>
     damage (detectHit N g kps) = 0 \<and> hitType (detectHit N g kps) = []
     \<and> reportedZone (detectHit N g kps) = None"
  using scan_none [of "allKeypoints kps" N "radius g" kps]
  by (auto simp: detectHit_def qualifies_iff reportedZone_def)

lemma detect_some:
  "qualifies N (radius g) kps z0 \<Longrightarrow>
     \<exists>z. leader N (radius g) kps (allKeypoints kps) z \<and> holds N kps (detectHit N g kps) z"
  using scan_some [of "allKeypoints kps" N "radius g" kps]
  by (auto simp: detectHit_def qualifies_iff)

lemma leader_qualifies: "leader N rad kps (allKeypoints kps) z \<Longrightarrow> qualifies N rad kps z"
  by (auto simp: leader_def qualifies_iff)

lemma leader_max:
  "leader N rad kps (allKeypoints kps) z \<Longrightarrow> qualifies N rad kps z' \<Longrightarrow>
     zoneScore N z' kps \<le> zoneScore N z kps"
  using leader_bound by (auto simp: qualifies_iff)

lemma leader_first:
  assumes "leader N rad kps (allKeypoints kps) z" "zoneScore N z' kps = zoneScore N z kps" "z' \<noteq> z"
  shows "firstPass N rad kps z < firstPass N rad kps z'"
proof -
  from assms(1) obtain pre k post where
    *: "allKeypoints kps = pre @ k # post" "passes N rad kps z k"
       "\<forall>k'\<in>set pre. \<forall>z'. passes N rad kps z' k' \<longrightarrow> zoneScore N z' kps < zoneScore N z kps"
    unfolding leader_def by blast
  have a: "\<forall>k'\<in>set pre. \<not> passes N rad kps z' k'" using *(3) assms(2) by fastforce
  have b: "\<not> passes N rad kps z' k" using passes_unique [OF *(2)] assms(3) by blast
  have "takeWhile (\<lambda>k. \<not> passes N rad kps z' k) (pre @ k # post)
      = pre @ k # takeWhile (\<lambda>k. \<not> passes N rad kps z' k) post"
    using a b by (simp add: takeWhile_append2)
  then have 1: "length pre < firstPass N rad kps z'"
    by (simp add: firstPass_def *(1))
  have "length (takeWhile (\<lambda>k. \<not> passes N rad kps z k) (pre @ k # post)) \<le> length pre"
  proof (cases "\<forall>k'\<in>set pre. \<not> passes N rad kps z k'")
    case True
    then show ?thesis using *(2) by (simp add: takeWhile_append2)
  next
    case False
    then obtain x where "x \<in> set pre" "\<not> \<not> passes N rad kps z x" by blast
    then have "takeWhile (\<lambda>k. \<not> passes N rad kps z k) (pre @ k # post)
        = takeWhile (\<lambda>k. \<not> passes N rad kps z k) pre"
      by (rule takeWhile_append1)
    then show ?thesis by (simp add: length_takeWhile_le)
  qed
  then have "firstPass N rad kps z \<le> length pre" by (simp add: firstPass_def *(1))
  with 1 show ?thesis by simp
qed

lemma wins_unique: "wins N rad kps z \<Longrightarrow> wins N rad kps z' \<Longrightarrow> z = z'"
  unfolding wins_def by (metis less_asym order_antisym)

lemma leader_wins: "leader N rad kps (allKeypoints kps) z \<Longrightarrow> wins N rad kps z"
  unfolding wins_def using leader_qualifies leader_max leader_first by blast

text \<open>The head keypoints open the loop's list and pass no other zone's test, so the
  head zone is first passed before any other zone.\<close>

lemma firstPass_head:
  assumes "qualifies N rad kps Head"
  shows "firstPass N rad kps Head < length (headKeypoints kps)"
proof -
  let ?P = "\<lambda>k. \<not> passes N rad kps Head k"
  from assms obtain k where k: "k \<in> set (headKeypoints kps)" "passes N rad kps Head k"
    by (auto simp: qualifies_def list_ex_iff zoneKeypoints_def zoneParts_def headKeypoints_def)
  then have "takeWhile ?P (allKeypoints kps) = takeWhile ?P (headKeypoints kps)"
    unfolding allKeypoints_def by (intro takeWhile_append1 [of k]) auto
  moreover have "length (takeWhile ?P (headKeypoints kps)) < length (headKeypoints kps)"
  proof -
    have "dropWhile ?P (headKeypoints kps) \<noteq> []"
      using k by (auto simp: dropWhile_eq_Nil_conv)
    moreover have "length (takeWhile ?P (headKeypoints kps))
        + length (dropWhile ?P (headKeypoints kps)) = length (headKeypoints kps)"
      by (metis length_append takeWhile_dropWhile_id)
    ultimately show ?thesis by (metis length_greater_0_conv less_add_same_cancel1)
  qed
  ultimately show ?thesis by (simp add: firstPass_def)
qed

lemma firstPass_other:
  assumes "z \<noteq> Head"
  shows "length (headKeypoints kps) \<le> firstPass N rad kps z"
proof -
  have "\<forall>k\<in>set (headKeypoints kps). \<not> passes N rad kps z k"
    using assms
    by (cases z)
       (auto simp: passes_def headKeypoints_def mem_selectKeypoints zoneParts_def
          headParts_def torsoParts_def lowerBodyParts_def)
  then have "takeWhile (\<lambda>k. \<not> passes N rad kps z k) (allKeypoints kps)
      = headKeypoints kps @ takeWhile (\<lambda>k. \<not> passes N rad kps z k)
          (torsoKeypoints kps @ lowerBodyKeypoints kps)"
    unfolding allKeypoints_def by (simp add: takeWhile_append2)
  then show ?thesis by (simp add: firstPass_def)
qed

lemma head_wins_ties:
  assumes "wins N rad kps z" "qualifies N rad kps Head" "zoneScore N Head kps = zoneScore N z kps"
  shows "z = Head"
proof (rule ccontr)
  assume n: "z \<noteq> Head"
  then have "firstPass N rad kps z < firstPass N rad kps Head"
    using assms unfolding wins_def by metis
  moreover have "firstPass N rad kps Head < firstPass N rad kps z"
    using firstPass_head [OF assms(2)] firstPass_other [OF n, of kps N rad] by simp
  ultimately show False by simp
qed



lemma wins_holds:
  assumes "wins N (radius g) kps z"
  shows "holds N kps (detectHit N g kps) z"
proof -
  from assms have "qualifies N (radius g) kps z" by (simp add: wins_def)
  then obtain z1 where z1: "leader N (radius g) kps (allKeypoints kps) z1"
      "holds N kps (detectHit N g kps) z1"
    using detect_some by blast
  from z1(1) have "wins N (radius g) kps z1" by (rule leader_wins)
  with assms have "z = z1" by (rule wins_unique)
  with z1(2) show ?thesis by simp
qed

section \<open>The session state machine\<close>

lemma arena_eq:
  "arena = \<lparr> players = [alice, bob], gameStatus = Ready, socketId = Some ''alice'',
      winner = None, lastShot = 0, selectedGun = Pistol,
      socketRef = Some (Socket (Some ''alice'')), netRef = True, videoRef = True \<rparr>"
  by (simp add: arena_def initial_def step_def commit_def render_def playerUpdate_def
      connect_def sessionEffect_def Let_def)


lemma run_reachable: "reachable N s \<Longrightarrow> reachable N (run N s es)"
  by (induction es arbitrary: s) (auto intro: reachable.intros)

lemma reachable_arena: "reachable exact arena"
  unfolding arena_def by (intro run_reachable reachable_initial)


text \<open>C5. A roster update delivered while the phase is Waiting replaces the roster
  by the delivered list; the phase becomes Ready when the list has exactly two players
  (whether or not their ids differ) and stays Waiting when it has fewer than two.\<close>

theorem playerUpdate_waiting:
  "gameStatus s = Waiting \<Longrightarrow>
     (length ps = 2 \<longrightarrow> gameStatus (playerUpdate s ps) = Ready)
   \<and> (length ps < 2 \<longrightarrow> gameStatus (playerUpdate s ps) = Waiting)
   \<and> players (playerUpdate s ps) = ps"
  by (simp add: playerUpdate_def Let_def)

theorem playerUpdate_waiting_witness:
  "gameStatus initial = Waiting
   \<and> distinct (map id' [alice, bob])
   \<and> gameStatus (playerUpdate initial [alice, bob]) = Ready
   \<and> players (playerUpdate initial [alice, bob]) = [alice, bob]
   \<and> gameStatus (playerUpdate initial [alice]) = Waiting
   \<and> players (playerUpdate initial [alice]) = [alice]"
proof -
  have w: "gameStatus initial = Waiting" by (simp add: initial_def)
  show ?thesis
    using w playerUpdate_waiting [OF w, of "[alice, bob]"]
      playerUpdate_waiting [OF w, of "[alice]"]
    by (simp add: alice_def bob_def)
qed

text \<open>C6. A gameOver event, delivered in any phase, makes the phase Over and records
  the delivered id as the winner.\<close>

theorem gameOver_any_phase:
  "gameStatus (gameOver s w) = Over \<and> winner (gameOver s w) = Some w"
  by (simp add: gameOver_def)

lemmas step_defs = step_def commit_def render_def sessionEffect_def playerUpdate_def
  gameOver_def connect_def handleReset_def handleGunChange_def handleShoot_def Let_def






section \<open>The shot handler\<close>

text \<open>C4. Let a first call at time \<open>t1\<close> pass the handle test and the cooldown. It
  records \<open>t1\<close>; and in any later state \<open>s'\<close> that still holds this time, a call at a
  time \<open>t2\<close> with \<open>t2 - t1 < 500\<close> performs no effect (no pose estimation, no relay
  message) and returns \<open>s'\<close> unchanged.\<close>

theorem shoot_cooldown:
  assumes "\<not> missingRefs s" "\<not> t1 - lastShot s < 500" "t2 - t1 < 500"
    and "lastShot s' = lastShot (fst (handleShoot N s t1 e1))"
  shows "lastShot (fst (handleShoot N s t1 e1)) = t1 \<and> handleShoot N s' t2 e2 = (s', [])"
  using assms by (simp add: handleShoot_def)

theorem shoot_cooldown_witness:
  "\<not> missingRefs arena \<and> \<not> 1000 - lastShot arena < 500 \<and> (1400 :: int) - 1000 < 500
   \<and> lastShot (fst (handleShoot exact arena 1000 (Poses [noseHigh]))) = 1000
   \<and> handleShoot exact (fst (handleShoot exact arena 1000 (Poses [noseHigh]))) 1400
         (Poses [noseHigh])
       = (fst (handleShoot exact arena 1000 (Poses [noseHigh])), [])"
proof -
  have a: "\<not> missingRefs arena" by (simp add: missingRefs_def arena_eq)
  have b: "\<not> 1000 - lastShot arena < 500" by (simp add: arena_eq)
  have c: "(1400 :: int) - 1000 < 500" by simp
  show ?thesis
    using a b c shoot_cooldown [OF a b c refl, of exact "Poses [noseHigh]" "Poses [noseHigh]"]
    by simp
qed

text \<open>The video handle exists only while the arena screen is rendered, that is only
  while the phase is Ready.\<close>

lemma video_only_ready: "reachable N s \<Longrightarrow> videoRef s \<Longrightarrow> gameStatus s = Ready"
proof (induction rule: reachable.induct)
  case reachable_initial
  then show ?case by (simp add: initial_def)
next
  case (reachable_step s e)
  then show ?case
    by (simp add: step_def commit_def render_def sessionEffect_def Let_def split: if_splits)
qed

text \<open>C7. A call of the shot handler in a reachable state whose phase is not Ready,
  or in any state where the socket, the pose model or the video handle is missing,
  returns normally with the state unchanged and no effect: no pose estimation, no
  relay message. The handler does not read the phase; outside Ready it is the missing
  video handle that stops it.\<close>

theorem shoot_rejected:
  "(reachable N s \<and> gameStatus s \<noteq> Ready) \<or> missingRefs s \<Longrightarrow>
     handleShoot N s now est = (s, [])"
  using video_only_ready [of N s] by (auto simp: handleShoot_def missingRefs_def)

theorem shoot_rejected_witness:
  "reachable exact (step exact arena (GameOver ''bob''))
   \<and> gameStatus (step exact arena (GameOver ''bob'')) = Over
   \<and> socketRef (step exact arena (GameOver ''bob'')) \<noteq> None
   \<and> netRef (step exact arena (GameOver ''bob''))
   \<and> handleShoot exact (step exact arena (GameOver ''bob'')) 1000 (Poses [noseHigh])
       = (step exact arena (GameOver ''bob''), [])
   \<and> gameStatus (arena\<lparr>netRef := False\<rparr>) = Ready \<and> missingRefs (arena\<lparr>netRef := False\<rparr>)
   \<and> handleShoot exact (arena\<lparr>netRef := False\<rparr>) 1000 (Poses [noseHigh])
       = (arena\<lparr>netRef := False\<rparr>, [])"
proof -
  have r: "reachable exact (step exact arena (GameOver ''bob''))"
    using reachable_arena by (rule reachable_step)
  have o: "gameStatus (step exact arena (GameOver ''bob'')) = Over"
    by (simp add: arena_eq step_defs)
  have m: "missingRefs (arena\<lparr>netRef := False\<rparr>)" by (simp add: missingRefs_def)
  show ?thesis
    using r o m
      shoot_rejected [of exact "step exact arena (GameOver ''bob'')" 1000 "Poses [noseHigh]"]
      shoot_rejected [of exact "arena\<lparr>netRef := False\<rparr>" 1000 "Poses [noseHigh]"]
    by (simp add: arena_eq step_def commit_def render_def sessionEffect_def gameOver_def)
qed

section \<open>Hit scoring\<close>

text \<open>C3, as the code has it. The collective score of a zone is the one the handler
  computes, with the runtime's rounded sum and quotient. A keypoint of a zone is a
  keypoint the loop evaluates: the first pose keypoint bearing one of the zone's part
  names, with a score above 0.3. The loop reports a zone exactly when some zone
  qualifies, and the zone it reports is the winning one: a qualifying zone of greatest
  collective score, and among such zones of equal score the one whose test is first
  passed in the loop's order (the head keypoints, then leftShoulder, rightShoulder,
  leftHip, rightHip, then the hips again). So Head wins every tie it is part of; a tie
  of Torso and LowerBody goes to the zone of the first passing keypoint of the torso
  list. The damage is 20 for Head, 15 for Torso and 10 for LowerBody, and 0 when no
  zone is reported.\<close>

theorem detectHit_zone:
  "(reportedZone (detectHit N g kps) = Some z \<longleftrightarrow> wins N (radius g) kps z)
   \<and> (reportedZone (detectHit N g kps) = None \<longleftrightarrow> (\<forall>z'. \<not> qualifies N (radius g) kps z'))
   \<and> (wins N (radius g) kps z \<and> qualifies N (radius g) kps Head
        \<and> zoneScore N Head kps = zoneScore N z kps \<longrightarrow> z = Head)
   \<and> hitType (detectHit N g kps)
        = (case reportedZone (detectHit N g kps) of None \<Rightarrow> [] | Some z' \<Rightarrow> zoneName z')
   \<and> damage (detectHit N g kps)
        = (case reportedZone (detectHit N g kps) of None \<Rightarrow> 0 | Some z' \<Rightarrow> zoneDamage z')
   \<and> zoneDamage Head = 20 \<and> zoneDamage Torso = 15 \<and> zoneDamage LowerBody = 10"
proof -
  have ties: "wins N (radius g) kps z \<and> qualifies N (radius g) kps Head
        \<and> zoneScore N Head kps = zoneScore N z kps \<longrightarrow> z = Head"
    using head_wins_ties by blast
  show ?thesis
  proof (cases "\<exists>z0. qualifies N (radius g) kps z0")
    case True
    then obtain z1 where z1: "leader N (radius g) kps (allKeypoints kps) z1"
        "holds N kps (detectHit N g kps) z1"
      using detect_some by blast
    have r: "reportedZone (detectHit N g kps) = Some z1" using z1(2) by (rule reportedZone_holds)
    have w: "wins N (radius g) kps z1" using z1(1) by (rule leader_wins)
    have "reportedZone (detectHit N g kps) = Some z \<longleftrightarrow> wins N (radius g) kps z"
      using r w wins_unique by auto
    moreover have "reportedZone (detectHit N g kps) = None
        \<longleftrightarrow> (\<forall>z'. \<not> qualifies N (radius g) kps z')"
      using r True by simp
    ultimately show ?thesis using r z1(2) ties by (simp add: holds_def zoneDamage_def)
  next
    case False
    then have n: "\<forall>z. \<not> qualifies N (radius g) kps z" by blast
    have "\<not> wins N (radius g) kps z" using n by (simp add: wins_def)
    with detect_none [OF n] n show ?thesis by (simp add: zoneDamage_def)
  qed
qed

text \<open>A nose alone gives a head shot of damage 20. A nose and a shoulder of equal
  score make Head and Torso qualify with equal collective scores, and Head wins.\<close>

theorem detectHit_zone_witness:
  "reportedZone (detectHit exact Pistol [noseHigh]) = Some Head
   \<and> wins exact (radius Pistol) [noseHigh] Head
   \<and> hitType (detectHit exact Pistol [noseHigh]) = ''Headshot''
   \<and> damage (detectHit exact Pistol [noseHigh]) = 20
   \<and> qualifies exact (radius Pistol) [noseTie, shoulderTie] Head
   \<and> qualifies exact (radius Pistol) [noseTie, shoulderTie] Torso
   \<and> zoneScore exact Head [noseTie, shoulderTie] = zoneScore exact Torso [noseTie, shoulderTie]
   \<and> wins exact (radius Pistol) [noseTie, shoulderTie] Head
   \<and> damage (detectHit exact Pistol [noseTie, shoulderTie]) = 20"
proof -
  have d: "detectHit exact Pistol [noseHigh]
      = \<lparr> hitDetected = True, damage = 20, bestScore = 0.9, hitType = ''Headshot'' \<rparr>"
    by (simp add: pose_eval)
  have r: "reportedZone (detectHit exact Pistol [noseHigh]) = Some Head"
    by (simp add: d reportedZone_def)
  have d2: "detectHit exact Pistol [noseTie, shoulderTie]
      = \<lparr> hitDetected = True, damage = 20, bestScore = 0.75, hitType = ''Headshot'' \<rparr>"
    by (simp add: pose_eval)
  have r2: "reportedZone (detectHit exact Pistol [noseTie, shoulderTie]) = Some Head"
    by (simp add: d2 reportedZone_def)
  have q: "qualifies exact (radius Pistol) [noseTie, shoulderTie] Head"
      "qualifies exact (radius Pistol) [noseTie, shoulderTie] Torso"
      "zoneScore exact Head [noseTie, shoulderTie] = zoneScore exact Torso [noseTie, shoulderTie]"
    by (simp_all add: pose_eval)
  have w1: "wins exact (radius Pistol) [noseHigh] Head"
    using detectHit_zone [of exact Pistol "[noseHigh]" Head] r by blast
  have w2: "wins exact (radius Pistol) [noseTie, shoulderTie] Head"
    using detectHit_zone [of exact Pistol "[noseTie, shoulderTie]" Head] r2 by blast
  from r w1 w2 q show ?thesis by (simp add: d d2)
qed

text \<open>Whatever the rounding, when both hips are in range of the pistol and their
  collective score exceeds 0.5, the torso and the lower body qualify with the same
  score and the loop reports the lower body.\<close>

lemma tie_any_rounding:
  assumes "withinRadius N (radius Pistol) leftHipLow" "withinRadius N (radius Pistol) rightHipMid"
    "collectiveScore N [leftHipLow, rightHipMid] > 0.5"
  shows "qualifies N (radius Pistol) [leftHipLow, rightHipMid] Torso"
    "qualifies N (radius Pistol) [leftHipLow, rightHipMid] LowerBody"
    "zoneScore N Torso [leftHipLow, rightHipMid] = zoneScore N LowerBody [leftHipLow, rightHipMid]"
    "hitType (detectHit N Pistol [leftHipLow, rightHipMid]) = ''Lower body shot''"
    "damage (detectHit N Pistol [leftHipLow, rightHipMid]) = 10"
  using assms by (simp_all add: part_eval collectiveScore_Nil)

text \<open>C3 as stated fails on ties of Torso and LowerBody. Only the hips are seen, the
  left one in the lower band and the right one in the torso band, both in range: both
  zones qualify with the same collective score (the same sum over the same two hips,
  whatever the rounding), and the loop, which meets the left hip first, reports the
  lower body with damage 10, not the torso. The hips lie at distances near 181 and 63
  from the centre, far from the pistol's rim of 200.\<close>

theorem tie_goes_to_lower_body:
  "qualifies exact (radius Pistol) [leftHipLow, rightHipMid] Torso
   \<and> qualifies exact (radius Pistol) [leftHipLow, rightHipMid] LowerBody
   \<and> zoneScore exact Torso [leftHipLow, rightHipMid]
       = zoneScore exact LowerBody [leftHipLow, rightHipMid]
   \<and> hitType (detectHit exact Pistol [leftHipLow, rightHipMid]) = ''Lower body shot''
   \<and> damage (detectHit exact Pistol [leftHipLow, rightHipMid]) = 10"
proof -
  have d: "detectHit exact Pistol [leftHipLow, rightHipMid]
      = \<lparr> hitDetected = True, damage = 10, bestScore = 0.8, hitType = ''Lower body shot'' \<rparr>"
    by (simp add: pose_eval)
  have q: "qualifies exact (radius Pistol) [leftHipLow, rightHipMid] Torso"
      "qualifies exact (radius Pistol) [leftHipLow, rightHipMid] LowerBody"
    by (simp_all add: pose_eval)
  have z: "zoneScore exact Torso [leftHipLow, rightHipMid]
      = zoneScore exact LowerBody [leftHipLow, rightHipMid]"
    by (simp add: pose_eval)
  show ?thesis using q z by (simp add: d)
qed

text \<open>C10. The loop's list is the head keypoints, the torso keypoints and the lower-body
  keypoints in a row, so the hips occur twice. Its result equals the result of the loop
  run on the head keypoints followed by the torso keypoints, a list without repetition
  that holds the same keypoints in the order of their first occurrence.\<close>

theorem duplicates_harmless:
  "detectHit N g kps = scanPose N (radius g) kps (headKeypoints kps @ torsoKeypoints kps)
   \<and> distinct (headKeypoints kps @ torsoKeypoints kps)
   \<and> set (headKeypoints kps @ torsoKeypoints kps) = set (allKeypoints kps)"
proof -
  have "set (lowerBodyKeypoints kps) \<subseteq> set (headKeypoints kps @ torsoKeypoints kps)"
    using lower_subset_torso by auto
  then have "scanPose N (radius g) kps
        ((headKeypoints kps @ torsoKeypoints kps) @ lowerBodyKeypoints kps)
      = scanPose N (radius g) kps (headKeypoints kps @ torsoKeypoints kps)"
    by (rule scan_seen)
  then have 1: "detectHit N g kps
      = scanPose N (radius g) kps (headKeypoints kps @ torsoKeypoints kps)"
    by (simp add: detectHit_def allKeypoints_def)
  have "distinct (headParts @ torsoParts)"
    by (simp add: headParts_def torsoParts_def)
  then have "distinct (selectKeypoints (headParts @ torsoParts) kps)"
    by (rule distinct_selectKeypoints)
  then have 2: "distinct (headKeypoints kps @ torsoKeypoints kps)"
    by (simp add: selectKeypoints_append headKeypoints_def torsoKeypoints_def)
  from 1 2 set_allKeypoints [of kps] show ?thesis by simp
qed

theorem duplicates_harmless_witness:
  "allKeypoints [leftHipLow, rightHipMid] = [leftHipLow, rightHipMid, leftHipLow, rightHipMid]
   \<and> headKeypoints [leftHipLow, rightHipMid] @ torsoKeypoints [leftHipLow, rightHipMid]
       = [leftHipLow, rightHipMid]
   \<and> detectHit exact Pistol [leftHipLow, rightHipMid]
       = scanPose exact (radius Pistol) [leftHipLow, rightHipMid] [leftHipLow, rightHipMid]"
proof -
  have a: "allKeypoints [leftHipLow, rightHipMid]
      = [leftHipLow, rightHipMid, leftHipLow, rightHipMid]"
    by (simp add: pose_eval)
  have b: "headKeypoints [leftHipLow, rightHipMid] @ torsoKeypoints [leftHipLow, rightHipMid]
       = [leftHipLow, rightHipMid]"
    by (simp add: pose_eval)
  show ?thesis
    using a b duplicates_harmless [of exact Pistol "[leftHipLow, rightHipMid]"] by simp
qed

text \<open>A pose whose only qualifying zone is the head.\<close>

lemma only_head_wins:
  assumes "qualifies N rad kps Head" "\<not> qualifies N rad kps Torso"
    "\<not> qualifies N rad kps LowerBody"
  shows "wins N rad kps Head"
proof -
  have "z' = Head" if "qualifies N rad kps z'" for z'
    using that assms(2,3) by (cases z') auto
  with assms(1) show ?thesis unfolding wins_def by blast
qed

lemma face_qualifies:
  "qualifies exact (radius Sniper) [noseNear, leftEarWide] Head"
  "\<not> qualifies exact (radius Sniper) [noseNear, leftEarWide] Torso"
  "\<not> qualifies exact (radius Sniper) [noseNear, leftEarWide] LowerBody"
  "qualifies exact (radius Pistol) [noseNear, leftEarWide] Head"
  "\<not> qualifies exact (radius Pistol) [noseNear, leftEarWide] Torso"
  "\<not> qualifies exact (radius Pistol) [noseNear, leftEarWide] LowerBody"
  by (simp_all add: pose_eval)

lemma nose_qualifies:
  "qualifies exact (radius Pistol) [noseHigh] Head"
  "\<not> qualifies exact (radius Pistol) [noseHigh] Torso"
  "\<not> qualifies exact (radius Pistol) [noseHigh] LowerBody"
  "\<not> qualifies exact (radius Sniper) [noseHigh] Head"
  "\<not> qualifies exact (radius Sniper) [noseHigh] Torso"
  "\<not> qualifies exact (radius Sniper) [noseHigh] LowerBody"
  by (simp_all add: pose_eval)

text \<open>C8. The radius is 100 for the sniper, 200 for the pistol and 400 for the
  shotgun. Whatever the gun, the loop gives the winning zone its damage and its name:
  20 for Head, 15 for Torso, 10 for LowerBody; and it gives damage 0 when no zone
  qualifies. Two guns that put the same keypoints of a pose in range give the same
  result, so the gun acts through the range test only.\<close>

theorem weapon_only_radius:
  "radius Sniper = 100 \<and> radius Pistol = 200 \<and> radius Shotgun = 400
   \<and> (wins N (radius g) kps z \<longrightarrow>
        damage (detectHit N g kps) = zoneDamage z \<and> hitType (detectHit N g kps) = zoneName z)
   \<and> zoneDamage Head = 20 \<and> zoneDamage Torso = 15 \<and> zoneDamage LowerBody = 10
   \<and> ((\<forall>z'. \<not> qualifies N (radius g) kps z') \<longrightarrow> damage (detectHit N g kps) = 0)
   \<and> ((\<forall>k\<in>set (allKeypoints kps). withinRadius N (radius g) k = withinRadius N (radius g') k)
        \<longrightarrow> detectHit N g kps = detectHit N g' kps)"
proof -
  have 1: "wins N (radius g) kps z \<longrightarrow>
        damage (detectHit N g kps) = zoneDamage z \<and> hitType (detectHit N g kps) = zoneName z"
    using wins_holds [of N g kps z] by (simp add: holds_def)
  have 2: "(\<forall>z'. \<not> qualifies N (radius g) kps z') \<longrightarrow> damage (detectHit N g kps) = 0"
    using detect_none [of N g kps] by blast
  have 3: "detectHit N g kps = detectHit N g' kps"
    if "\<forall>k\<in>set (allKeypoints kps). withinRadius N (radius g) k = withinRadius N (radius g') k"
    using scan_same_range [OF that] by (simp add: detectHit_def scanPose_def)
  from 1 2 3 show ?thesis
    by (simp add: radius_def zoneDamage_def)
qed

text \<open>The sniper has only the nose in range and the pistol the nose and the ear: the
  head wins with either, with damage 20. A nose 140 from the centre is out of the
  sniper's range, where no zone qualifies and the damage is 0, and in range of pistol
  and shotgun alike, which give equal results.\<close>

theorem weapon_only_radius_witness:
  "withinRadius exact (radius Sniper) noseNear \<and> \<not> withinRadius exact (radius Sniper) leftEarWide
   \<and> withinRadius exact (radius Pistol) noseNear \<and> withinRadius exact (radius Pistol) leftEarWide
   \<and> wins exact (radius Sniper) [noseNear, leftEarWide] Head
   \<and> damage (detectHit exact Sniper [noseNear, leftEarWide]) = 20
   \<and> wins exact (radius Pistol) [noseNear, leftEarWide] Head
   \<and> damage (detectHit exact Pistol [noseNear, leftEarWide]) = 20
   \<and> \<not> withinRadius exact (radius Sniper) noseHigh
   \<and> damage (detectHit exact Sniper [noseHigh]) = 0
   \<and> allKeypoints [noseHigh] = [noseHigh]
   \<and> withinRadius exact (radius Pistol) noseHigh \<and> withinRadius exact (radius Shotgun) noseHigh
   \<and> detectHit exact Pistol [noseHigh] = detectHit exact Shotgun [noseHigh]"
proof -
  have r: "withinRadius exact (radius Sniper) noseNear"
      "\<not> withinRadius exact (radius Sniper) leftEarWide"
      "withinRadius exact (radius Pistol) noseNear"
      "withinRadius exact (radius Pistol) leftEarWide"
      "\<not> withinRadius exact (radius Sniper) noseHigh"
    by (simp_all add: pose_eval)
  have ws: "wins exact (radius Sniper) [noseNear, leftEarWide] Head"
    using face_qualifies(1-3) by (rule only_head_wins)
  have wp: "wins exact (radius Pistol) [noseNear, leftEarWide] Head"
    using face_qualifies(4-6) by (rule only_head_wins)
  have ds: "damage (detectHit exact Sniper [noseNear, leftEarWide]) = 20"
    using weapon_only_radius [of exact Sniper "[noseNear, leftEarWide]" Head Sniper] ws by simp
  have dp: "damage (detectHit exact Pistol [noseNear, leftEarWide]) = 20"
    using weapon_only_radius [of exact Pistol "[noseNear, leftEarWide]" Head Pistol] wp by simp
  have n: "\<forall>z'. \<not> qualifies exact (radius Sniper) [noseHigh] z'"
  proof
    fix z' show "\<not> qualifies exact (radius Sniper) [noseHigh] z'"
      using nose_qualifies(4-6) by (cases z') auto
  qed
  have d0: "damage (detectHit exact Sniper [noseHigh]) = 0"
    using weapon_only_radius [of exact Sniper "[noseHigh]" Head Sniper] n by blast
  have a: "allKeypoints [noseHigh] = [noseHigh]" by (simp add: pose_eval)
  have p: "withinRadius exact (radius Pistol) noseHigh" by (simp add: pose_eval)
  have s: "withinRadius exact (radius Shotgun) noseHigh" by (simp add: pose_eval)
  have h: "\<forall>k\<in>set (allKeypoints [noseHigh]).
      withinRadius exact (radius Pistol) k = withinRadius exact (radius Shotgun) k"
    using a p s by simp
  have e: "detectHit exact Pistol [noseHigh] = detectHit exact Shotgun [noseHigh]"
    using weapon_only_radius [of exact Pistol "[noseHigh]" Head Shotgun] h by blast
  from r ws wp ds dp d0 a p s e show ?thesis by blast
qed

lemma noseLow_unqualified:
  "\<not> qualifies exact (radius Pistol) [noseLow] Head"
  "\<not> qualifies exact (radius Pistol) [noseLow] Torso"
  "\<not> qualifies exact (radius Pistol) [noseLow] LowerBody"
  by (simp_all add: pose_eval)

lemma noseLow_detect:
  "detectHit exact Pistol [noseLow]
     = \<lparr> hitDetected = True, damage = 0, bestScore = 0, hitType = [] \<rparr>"
  by (simp add: pose_eval)

lemma noseLow_shot:
  "handleShoot exact arena 1000 (Poses [noseLow])
     = (arena\<lparr>lastShot := 1000\<rparr>, [EstimateSinglePose, EmitShoot (Some ''alice'') 0])"
  by (simp add: noseLow_detect handleShoot_def missingRefs_def arena_eq)

text \<open>Whatever the rounding, when the low nose is in range of the pistol no zone
  qualifies and the shoot message with damage 0 is sent.\<close>

lemma noseLow_any_rounding:
  assumes "withinRadius N (radius Pistol) noseLow"
  shows "\<not> qualifies N (radius Pistol) [noseLow] Head"
    "\<not> qualifies N (radius Pistol) [noseLow] Torso"
    "\<not> qualifies N (radius Pistol) [noseLow] LowerBody"
    "handleShoot N arena 1000 (Poses [noseLow])
       = (arena\<lparr>lastShot := 1000\<rparr>, [EstimateSinglePose, EmitShoot (Some ''alice'') 0])"
  using assms
  by (simp_all add: part_eval collectiveScore_Nil handleShoot_def missingRefs_def arena_eq)

text \<open>C2 at a failing input. The pose holds a nose of score 0.9 at \<open>(320, 300)\<close>: it is
  in range of the pistol, but below the head band, so no zone qualifies. The loop sets
  \<^verbatim>\<open>hitDetected\<close> all the same (line 320 stands after the zone branches, not in them),
  and the handler sends a shoot message with damage 0. On this input the runtime's
  operations return the exact values: the score is a sum of one term divided by 1,
  and the distance is the root of the square 3600.\<close>

theorem damage_zero_emitted:
  "\<not> qualifies exact (radius Pistol) [noseLow] Head
   \<and> \<not> qualifies exact (radius Pistol) [noseLow] Torso
   \<and> \<not> qualifies exact (radius Pistol) [noseLow] LowerBody
   \<and> hitDetected (detectHit exact Pistol [noseLow]) = True
   \<and> damage (detectHit exact Pistol [noseLow]) = 0
   \<and> handleShoot exact arena 1000 (Poses [noseLow])
       = (arena\<lparr>lastShot := 1000\<rparr>, [EstimateSinglePose, EmitShoot (Some ''alice'') 0])"
  using noseLow_unqualified noseLow_shot by (simp add: noseLow_detect)







text \<open>Whatever the rounding, a pose that holds a wrist only gives the loop nothing
  to evaluate.\<close>

lemma wrist_any_rounding:
  "handleShoot N arena 1000 (Poses [leftWrist])
     = (arena\<lparr>lastShot := 1000\<rparr>, [EstimateSinglePose])"
  by (simp add: part_eval handleShoot_def missingRefs_def arena_eq)


end
